theory Spec2Isabelle
  imports Main "HOL-Library.Sublist"
begin

section \<open>JavaScript values\<close>

text \<open>
  The values that can reach \<^verbatim>\<open>lib/router/route.js\<close>: as a handler argument of a
  registration call, or as the argument a handler passes to its continuation.
  Objects and functions are references: \<open>JObj tag a\<close> is the object at address \<open>a\<close>
  whose built-in class tag is \<open>tag\<close>, \<open>JFun a n\<close> the function at address \<open>a\<close>
  declared with \<open>n\<close> parameters. Equality of two such values is equality of the
  addresses, which is what \<^verbatim>\<open>===\<close> compares. Numbers are the integers and NaN.
\<close>

datatype jsval =
    JUndefined
  | JNull
  | JBool bool
  | JNum int
  | JNaN
  | JStr string
  | JObj string nat
  | JFun nat nat
  | JArr "jsval list"

text \<open>What \<^verbatim>\<open>if (v)\<close> and \<^verbatim>\<open>v && ...\<close> test.\<close>

fun truthy :: "jsval \<Rightarrow> bool" where
  "truthy JUndefined = False"
| "truthy JNull = False"
| "truthy (JBool b) = b"
| "truthy (JNum n) = (n \<noteq> 0)"
| "truthy JNaN = False"
| "truthy (JStr s) = (s \<noteq> [])"
| "truthy (JObj tag a) = True"
| "truthy (JFun a n) = True"
| "truthy (JArr xs) = True"

text \<open>The operator \<^verbatim>\<open>typeof\<close>.\<close>

fun typeof :: "jsval \<Rightarrow> string" where
  "typeof JUndefined = ''undefined''"
| "typeof JNull = ''object''"
| "typeof (JBool b) = ''boolean''"
| "typeof (JNum n) = ''number''"
| "typeof JNaN = ''number''"
| "typeof (JStr s) = ''string''"
| "typeof (JObj tag a) = ''object''"
| "typeof (JFun a n) = ''function''"
| "typeof (JArr xs) = ''object''"

text \<open>\<^verbatim>\<open>toString.call(v)\<close>, with \<^verbatim>\<open>toString = Object.prototype.toString\<close> (line 26).\<close>

fun toString :: "jsval \<Rightarrow> string" where
  "toString JUndefined = ''[object Undefined]''"
| "toString JNull = ''[object Null]''"
| "toString (JBool b) = ''[object Boolean]''"
| "toString (JNum n) = ''[object Number]''"
| "toString JNaN = ''[object Number]''"
| "toString (JStr s) = ''[object String]''"
| "toString (JObj tag a) = ''[object '' @ tag @ '']''"
| "toString (JFun a n) = ''[object Function]''"
| "toString (JArr xs) = ''[object Array]''"

text \<open>
  \<^verbatim>\<open>flatten\<close> is the npm package array-flatten (line 17), a dependency and not a file
  of this repository: called with one argument it replaces every array, at any
  depth, by its elements, in order.
\<close>

fun flatten :: "jsval list \<Rightarrow> jsval list" where
  "flatten [] = []"
| "flatten (JArr xs # rest) = flatten xs @ flatten rest"
| "flatten (v # rest) = v # flatten rest"

text \<open>The first parameter of a function called with the argument list \<open>arguments\<close>.\<close>

fun arg0 :: "jsval list \<Rightarrow> jsval" where
  "arg0 [] = JUndefined"
| "arg0 (v # rest) = v"

section \<open>Layers, routes, requests\<close>

text \<open>
  Modelled from the spec: the \<^verbatim>\<open>Layer\<close> class of \<^verbatim>\<open>lib/router/layer.js\<close>, which is
  required at line 18 and is not among the sources. The spec gives its constructor
  as \<^verbatim>\<open>Layer(pattern, options, handler)\<close>, wrapping exactly one handler function and
  immutable after creation. Its two entry points \<^verbatim>\<open>handle_request\<close> and
  \<^verbatim>\<open>handle_error\<close> are parameters of the dispatch model below.
\<close>

record layer =
  layer_path :: string
  layer_options :: "(string \<times> jsval) list"
  layer_handle :: jsval

definition Layer :: "string \<Rightarrow> (string \<times> jsval) list \<Rightarrow> jsval \<Rightarrow> layer" where
  "Layer pattern options handler =
     \<lparr>layer_path = pattern, layer_options = options, layer_handle = handler\<rparr>"

text \<open>The fields the constructor \<^verbatim>\<open>Route(path)\<close> sets (lines 42-47).\<close>

record route =
  path :: string
  stack :: "layer list"

definition Route :: "string \<Rightarrow> route" where
  "Route p = \<lparr>path = p, stack = []\<rparr>"

text \<open>
  Route objects live in a store and are named by their address, so that
  \<^verbatim>\<open>return this\<close> and \<^verbatim>\<open>req.route = this\<close> are about the object and not a copy.
\<close>

type_synonym ref = nat

type_synonym routes = "ref \<Rightarrow> route"

text \<open>
  Of the request, the dispatcher touches the property \<^verbatim>\<open>route\<close> only; everything
  else a request carries is \<open>payload\<close>. The response is any type \<open>'s\<close>.
\<close>

record 'q request =
  route :: "ref option"
  payload :: 'q

datatype exn = TypeError string | Error string

fun message :: "exn \<Rightarrow> string" where
  "message (TypeError msg) = msg"
| "message (Error msg) = msg"

section \<open>Registration\<close>

text \<open>
  The loop of \<^verbatim>\<open>Route.prototype.all\<close> (lines 120-132) over \<open>handles\<close> from position
  \<open>i\<close> on, \<open>stk\<close> being \<^verbatim>\<open>this.stack\<close>. A throw leaves the loop with the stack as the
  pushes before it made it, so the stack is returned beside the exception.
\<close>

fun all_loop :: "layer list \<Rightarrow> jsval list \<Rightarrow> exn option \<times> layer list" where
  "all_loop stk [] = (None, stk)"
| "all_loop stk (handle # handles) =
     (if typeof handle \<noteq> ''function'' then
        (let type = toString handle;
             msg = ''Route.all() requires a callback function but got a '' @ type
         in (Some (TypeError msg), stk))
      else
        (let layer = Layer ''/'' [] handle
         in all_loop (stk @ [layer]) handles))"

text \<open>The loop of \<^verbatim>\<open>Route.prototype.get\<close> (lines 140-154).\<close>

fun get_loop :: "layer list \<Rightarrow> jsval list \<Rightarrow> exn option \<times> layer list" where
  "get_loop stk [] = (None, stk)"
| "get_loop stk (handle # handles) =
     (if typeof handle \<noteq> ''function'' then
        (let type = toString handle;
             msg = ''Route.get() requires a callback function but got a '' @ type
         in (Some (Error msg), stk))
      else
        (let layer = Layer ''/'' [] handle
         in get_loop (stk @ [layer]) handles))"

text \<open>
  \<^verbatim>\<open>Route.prototype.all\<close> (lines 117-135) called on the route at address \<open>this\<close> with
  the argument list \<open>arguments\<close>, in the store \<open>h\<close>: the exception thrown or the
  reference returned, and the store afterwards.
\<close>

definition "all" :: "ref \<Rightarrow> jsval list \<Rightarrow> routes \<Rightarrow> (exn + ref) \<times> routes" where
  "all this arguments h =
     (let handles = flatten arguments;
          (thrown, stk) = all_loop (stack (h this)) handles;
          h' = h(this := (h this)\<lparr>stack := stk\<rparr>)
      in case thrown of
           Some e \<Rightarrow> (Inl e, h')
         | None \<Rightarrow> (Inr this, h'))"

text \<open>\<^verbatim>\<open>Route.prototype.get\<close> (lines 137-157).\<close>

definition get :: "ref \<Rightarrow> jsval list \<Rightarrow> routes \<Rightarrow> (exn + ref) \<times> routes" where
  "get this arguments h =
     (let handles = flatten arguments;
          (thrown, stk) = get_loop (stack (h this)) handles;
          h' = h(this := (h this)\<lparr>stack := stk\<rparr>)
      in case thrown of
           Some e \<Rightarrow> (Inl e, h')
         | None \<Rightarrow> (Inr this, h'))"

section \<open>Dispatch\<close>

text \<open>
  What one call of the closure \<^verbatim>\<open>next\<close> (lines 65-86) ends with: a call of
  \<^verbatim>\<open>done\<close> with an argument list, or a call of one of the two entry points of a
  layer. Both calls are in tail position, so everything \<^verbatim>\<open>next\<close> does to the cursor
  is done before the callee runs.
\<close>

datatype action =
    Call_done "jsval list"
  | Call_handle_error jsval layer
  | Call_handle_request layer

text \<open>
  The body of \<^verbatim>\<open>next\<close>, called with the argument list \<open>arguments\<close> when the cursor
  is \<open>idx\<close>: the cursor afterwards and the call made. \<^verbatim>\<open>stack[idx++]\<close> is
  \<^verbatim>\<open>undefined\<close> beyond the end of the array, and a layer object is never falsy.
\<close>

definition next_fn :: "layer list \<Rightarrow> nat \<Rightarrow> jsval list \<Rightarrow> nat \<times> action" where
  "next_fn stk idx arguments =
     (let err = arg0 arguments in
      if truthy err \<and> err = JStr ''route'' then (idx, Call_done [])
      else if truthy err \<and> err = JStr ''router'' then (idx, Call_done [err])
      else if length stk \<le> idx then (idx + 1, Call_done [err])
      else if truthy err then (idx + 1, Call_handle_error err (stk ! idx))
      else (idx + 1, Call_handle_request (stk ! idx)))"

text \<open>
  What a layer does when one of its entry points is called: the request and the
  response as it leaves them, and the calls it makes to its continuation, each
  by its argument list, in the order it makes them (none, one, or several). A
  layer does not register handlers on a route while a dispatch runs.
\<close>

record ('q, 's) effect =
  new_req :: "'q request"
  new_res :: 's
  calls :: "jsval list list"

text \<open>
  The entry points of the layers (see \<open>layer\<close> above), and the classification of a
  layer as error-capable, are parameters of the model.
\<close>

record ('q, 's) env =
  handle_request :: "layer \<Rightarrow> 'q request \<Rightarrow> 's \<Rightarrow> ('q, 's) effect"
  handle_error :: "layer \<Rightarrow> jsval \<Rightarrow> 'q request \<Rightarrow> 's \<Rightarrow> ('q, 's) effect"
  error_capable :: "layer \<Rightarrow> bool"

text \<open>The calls a dispatch makes, with their arguments.\<close>

datatype ('q, 's) event =
    Done "jsval list"
  | Handle_error layer jsval "'q request" 's
  | Handle_request layer "'q request" 's

text \<open>What a dispatch leaves behind: the calls it made, and the objects it was given.\<close>

record ('q, 's) outcome =
  events :: "('q, 's) event list"
  final_req :: "'q request"
  final_res :: 's
  final_routes :: routes

definition emit :: "('q, 's) event \<Rightarrow> ('q, 's) outcome \<Rightarrow> ('q, 's) outcome" where
  "emit ev out = out\<lparr>events := ev # events out\<rparr>"

text \<open>
  The calls of \<^verbatim>\<open>next\<close> still to be made, \<open>pending\<close>, are made in order; a layer's
  own calls come before the ones that were pending when it was entered, as they
  do when handlers call their continuation before they return. When no layer
  calls its continuation twice there is never more than one call pending, and
  this order is the only one there is. The cursor, the request and the response
  are the variables the closure shares.
\<close>

function run ::
  "('q, 's) env \<Rightarrow> layer list \<Rightarrow> routes \<Rightarrow> nat \<Rightarrow> 'q request \<Rightarrow> 's \<Rightarrow> jsval list list
     \<Rightarrow> ('q, 's) outcome" where
  "run env stk h idx req res [] =
     \<lparr>events = [], final_req = req, final_res = res, final_routes = h\<rparr>"
| "run env stk h idx req res (arguments # pending) =
     (case next_fn stk idx arguments of
        (idx', Call_done args) \<Rightarrow>
          emit (Done args) (run env stk h idx' req res pending)
      | (idx', Call_handle_error err layer) \<Rightarrow>
          (let eff = handle_error env layer err req res
           in emit (Handle_error layer err req res)
                (run env stk h idx' (new_req eff) (new_res eff) (calls eff @ pending)))
      | (idx', Call_handle_request layer) \<Rightarrow>
          (let eff = handle_request env layer req res
           in emit (Handle_request layer req res)
                (run env stk h idx' (new_req eff) (new_res eff) (calls eff @ pending))))"
  by pat_completeness auto
termination
proof (relation "measures
    [\<lambda>(env, stk, h, idx, req, res, pending). length stk - idx,
     \<lambda>(env, stk, h, idx, req, res, pending). length pending]", goal_cases)
  case 1
  show ?case by simp
next
  case (2 env stk h idx req res arguments pending idx' act args)
  then have "next_fn stk idx arguments = (idx', Call_done args)"
    by simp
  then have "idx \<le> idx'"
    by (auto simp: next_fn_def Let_def split: if_splits)
  then show ?case by auto
next
  case (3 env stk h idx req res arguments pending idx' act err l eff)
  then have "next_fn stk idx arguments = (idx', Call_handle_error err l)"
    by simp
  then have "idx < length stk \<and> idx' = Suc idx"
    by (auto simp: next_fn_def Let_def split: if_splits)
  then show ?case by auto
next
  case (4 env stk h idx req res arguments pending idx' act l eff)
  then have "next_fn stk idx arguments = (idx', Call_handle_request l)"
    by simp
  then have "idx < length stk \<and> idx' = Suc idx"
    by (auto simp: next_fn_def Let_def split: if_splits)
  then show ?case by auto
qed

text \<open>
  \<^verbatim>\<open>Route.prototype.dispatch\<close> (lines 54-87) on the route at address \<open>this\<close>. The
  callback \<^verbatim>\<open>done\<close> is the caller's; its calls are recorded.
\<close>

definition dispatch ::
  "('q, 's) env \<Rightarrow> ref \<Rightarrow> routes \<Rightarrow> 'q request \<Rightarrow> 's \<Rightarrow> ('q, 's) outcome" where
  "dispatch env this h req res =
     (let idx = 0;
          stk = stack (h this)
      in if length stk = 0 then
           emit (Done []) \<lparr>events = [], final_req = req, final_res = res, final_routes = h\<rparr>
         else
           run env stk h idx (req\<lparr>route := Some this\<rparr>) res [[]])"

section \<open>Reading a dispatch\<close>

text \<open>What the layer entered by a call answered; \<^verbatim>\<open>done\<close> is not a layer.\<close>

fun respond :: "('q, 's) env \<Rightarrow> ('q, 's) event \<Rightarrow> ('q, 's) effect option" where
  "respond env (Done args) = None"
| "respond env (Handle_error l e q s) = Some (handle_error env l e q s)"
| "respond env (Handle_request l q s) = Some (handle_request env l q s)"

fun layer_of :: "('q, 's) event \<Rightarrow> layer option" where
  "layer_of (Done args) = None"
| "layer_of (Handle_error l e q s) = Some l"
| "layer_of (Handle_request l q s) = Some l"

text \<open>A call without the request and the response it was given.\<close>

fun action_of :: "('q, 's) event \<Rightarrow> action" where
  "action_of (Done args) = Call_done args"
| "action_of (Handle_error l e q s) = Call_handle_error e l"
| "action_of (Handle_request l q s) = Call_handle_request l"

fun is_done :: "('q, 's) event \<Rightarrow> bool" where
  "is_done (Done args) = True"
| "is_done (Handle_error l e q s) = False"
| "is_done (Handle_request l q s) = False"

text \<open>
  The request and the response handed along a list of calls, from \<open>current\<close> on:
  every layer has to be entered with the two as they are at that point, and leaves
  them as its answer says; a call of \<^verbatim>\<open>done\<close> leaves them alone. The result is
  \<open>None\<close> when some layer is entered with anything else, and the two as the last
  layer left them otherwise.
\<close>

fun thread ::
  "('q, 's) env \<Rightarrow> ('q, 's) event list \<Rightarrow> 'q request \<times> 's \<Rightarrow> ('q request \<times> 's) option" where
  "thread env [] current = Some current"
| "thread env (Done args # evs) current = thread env evs current"
| "thread env (Handle_error l e q s # evs) current =
     (if (q, s) = current then
        thread env evs (new_req (handle_error env l e q s), new_res (handle_error env l e q s))
      else None)"
| "thread env (Handle_request l q s # evs) current =
     (if (q, s) = current then
        thread env evs (new_req (handle_request env l q s), new_res (handle_request env l q s))
      else None)"

definition is_function :: "jsval \<Rightarrow> bool" where
  "is_function v \<longleftrightarrow> typeof v = ''function''"

definition sentinel :: "jsval \<Rightarrow> bool" where
  "sentinel v \<longleftrightarrow> v = JStr ''route'' \<or> v = JStr ''router''"

text \<open>
  The continuation contract: a layer of \<open>stk\<close>, entered in either mode, calls its
  continuation at most once, or exactly once.
\<close>

definition at_most_once :: "('q, 's) env \<Rightarrow> layer list \<Rightarrow> bool" where
  "at_most_once env stk \<longleftrightarrow>
     (\<forall>l \<in> set stk. (\<forall>q s. length (calls (handle_request env l q s)) \<le> 1) \<and>
        (\<forall>e q s. length (calls (handle_error env l e q s)) \<le> 1))"

definition exactly_once :: "('q, 's) env \<Rightarrow> layer list \<Rightarrow> bool" where
  "exactly_once env stk \<longleftrightarrow>
     (\<forall>l \<in> set stk. (\<forall>q s. length (calls (handle_request env l q s)) = 1) \<and>
        (\<forall>e q s. length (calls (handle_error env l e q s)) = 1))"

text \<open>
  A layer that is not error-capable and is entered with an error hands the error
  on as it got it.
\<close>

definition skips_errors :: "('q, 's) env \<Rightarrow> layer list \<Rightarrow> bool" where
  "skips_errors env stk \<longleftrightarrow>
     (\<forall>l \<in> set stk. \<not> error_capable env l \<longrightarrow>
        (\<forall>e q s. calls (handle_error env l e q s) = [[e]]))"

text \<open>A layer that leaves the request and the response as it got them.\<close>

definition leaves_request :: "('q, 's) env \<Rightarrow> layer list \<Rightarrow> bool" where
  "leaves_request env stk \<longleftrightarrow>
     (\<forall>l \<in> set stk.
        (\<forall>q s. new_req (handle_request env l q s) = q \<and> new_res (handle_request env l q s) = s) \<and>
        (\<forall>e q s. new_req (handle_error env l e q s) = q \<and> new_res (handle_error env l e q s) = s))"

text \<open>
  The way of an error \<open>e\<close> through the layers \<open>ls\<close> that follow the one that raised
  it: every layer is entered with it up to the first one that is error-capable,
  and \<^verbatim>\<open>done\<close> gets it when there is none.
\<close>

fun error_path :: "(layer \<Rightarrow> bool) \<Rightarrow> jsval \<Rightarrow> layer list \<Rightarrow> action list" where
  "error_path capable e [] = [Call_done [e]]"
| "error_path capable e (l # ls) =
     (if capable l then [Call_handle_error e l]
      else Call_handle_error e l # error_path capable e ls)"

section \<open>Example handlers\<close>

text \<open>A store in which every route is new, and a request without a route.\<close>

definition no_routes :: routes where
  "no_routes = (\<lambda>a. Route ''/'')"

definition req0 :: "unit request" where
  "req0 = \<lparr>route = None, payload = ()\<rparr>"

definition boom :: jsval where
  "boom = JObj ''Error'' 100"

text \<open>
  Handlers are told apart by their address. In normal mode: 2 calls
  \<^verbatim>\<open>next()\<close> twice, 3 calls \<^verbatim>\<open>next('route')\<close>, 4 calls \<^verbatim>\<open>next('router')\<close>, 5 answers the
  request and never calls \<^verbatim>\<open>next\<close>, 6 calls \<^verbatim>\<open>next(boom)\<close>, 8 calls \<^verbatim>\<open>next()\<close> and then
  \<^verbatim>\<open>next(boom)\<close>, and every other one calls \<^verbatim>\<open>next()\<close>. With an error: a handler of
  four parameters calls \<^verbatim>\<open>next()\<close>, every other one hands the error on.
\<close>

fun on_request :: "jsval \<Rightarrow> jsval list list" where
  "on_request (JFun a n) =
     (if a = 2 then [[], []]
      else if a = 3 then [[JStr ''route'']]
      else if a = 4 then [[JStr ''router'']]
      else if a = 5 then []
      else if a = 6 then [[boom]]
      else if a = 8 then [[], [boom]]
      else [[]])"
| "on_request v = [[]]"

fun on_error :: "jsval \<Rightarrow> jsval \<Rightarrow> jsval list list" where
  "on_error (JFun a n) e = (if n = 4 then [[]] else [[e]])"
| "on_error v e = [[e]]"

fun four_parameters :: "jsval \<Rightarrow> bool" where
  "four_parameters (JFun a n) = (n = 4)"
| "four_parameters v = False"

definition demo_env :: "(unit, unit) env" where
  "demo_env =
     \<lparr>handle_request = (\<lambda>l q s. \<lparr>new_req = q, new_res = s, calls = on_request (layer_handle l)\<rparr>),
      handle_error = (\<lambda>l e q s. \<lparr>new_req = q, new_res = s, calls = on_error (layer_handle l) e\<rparr>),
      error_capable = (\<lambda>l. four_parameters (layer_handle l))\<rparr>"

text \<open>
  Handlers that delete the property \<^verbatim>\<open>route\<close> of the request before they call
  \<^verbatim>\<open>next\<close>.
\<close>

definition forgetful_env :: "(unit, unit) env" where
  "forgetful_env =
     \<lparr>handle_request = (\<lambda>l q s. \<lparr>new_req = q\<lparr>route := None\<rparr>, new_res = s, calls = [[]]\<rparr>),
      handle_error = (\<lambda>l e q s. \<lparr>new_req = q\<lparr>route := None\<rparr>, new_res = s, calls = [[e]]\<rparr>),
      error_capable = (\<lambda>l. False)\<rparr>"

text \<open>The store after \<^verbatim>\<open>route.all(...)\<close> on the new route at address 0.\<close>

definition registered :: "jsval list \<Rightarrow> routes" where
  "registered handlers = snd (all 0 handlers no_routes)"

section \<open>The closure \<open>next\<close>, case by case\<close>

lemma next_fn_route: "arg0 a = JStr ''route'' \<Longrightarrow> next_fn stk idx a = (idx, Call_done [])"
  by (simp add: next_fn_def)

lemma next_fn_router:
  "arg0 a = JStr ''router'' \<Longrightarrow> next_fn stk idx a = (idx, Call_done [JStr ''router''])"
  by (simp add: next_fn_def)

lemma next_fn_end:
  "\<not> sentinel (arg0 a) \<Longrightarrow> length stk \<le> idx
   \<Longrightarrow> next_fn stk idx a = (Suc idx, Call_done [arg0 a])"
  by (simp add: next_fn_def sentinel_def)

lemma next_fn_error:
  "\<not> sentinel (arg0 a) \<Longrightarrow> idx < length stk \<Longrightarrow> truthy (arg0 a)
   \<Longrightarrow> next_fn stk idx a = (Suc idx, Call_handle_error (arg0 a) (stk ! idx))"
  by (simp add: next_fn_def sentinel_def)

lemma next_fn_request:
  "idx < length stk \<Longrightarrow> \<not> truthy (arg0 a)
   \<Longrightarrow> next_fn stk idx a = (Suc idx, Call_handle_request (stk ! idx))"
  by (simp add: next_fn_def)

lemma next_fn_handle_request:
  "next_fn stk idx a = (idx', Call_handle_request l) \<Longrightarrow> idx < length stk \<and> l = stk ! idx"
  by (auto simp: next_fn_def Let_def split: if_splits)

lemma next_fn_handle_error:
  "next_fn stk idx a = (idx', Call_handle_error e l) \<Longrightarrow> idx < length stk \<and> l = stk ! idx"
  by (auto simp: next_fn_def Let_def split: if_splits)

lemma run_route:
  "arg0 a = JStr ''route'' \<Longrightarrow>
   run env stk h idx q s (a # p) = emit (Done []) (run env stk h idx q s p)"
  by (simp add: next_fn_route)

lemma run_router:
  "arg0 a = JStr ''router'' \<Longrightarrow>
   run env stk h idx q s (a # p) = emit (Done [JStr ''router'']) (run env stk h idx q s p)"
  by (simp add: next_fn_router)

lemma run_end:
  "\<not> sentinel (arg0 a) \<Longrightarrow> length stk \<le> idx \<Longrightarrow>
   run env stk h idx q s (a # p) = emit (Done [arg0 a]) (run env stk h (Suc idx) q s p)"
  by (simp add: next_fn_end)

lemma run_error:
  "\<not> sentinel (arg0 a) \<Longrightarrow> idx < length stk \<Longrightarrow> truthy (arg0 a) \<Longrightarrow>
   run env stk h idx q s (a # p) =
     emit (Handle_error (stk ! idx) (arg0 a) q s)
       (run env stk h (Suc idx) (new_req (handle_error env (stk ! idx) (arg0 a) q s))
          (new_res (handle_error env (stk ! idx) (arg0 a) q s))
          (calls (handle_error env (stk ! idx) (arg0 a) q s) @ p))"
  by (simp add: next_fn_error Let_def)

lemma run_request:
  "idx < length stk \<Longrightarrow> \<not> truthy (arg0 a) \<Longrightarrow>
   run env stk h idx q s (a # p) =
     emit (Handle_request (stk ! idx) q s)
       (run env stk h (Suc idx) (new_req (handle_request env (stk ! idx) q s))
          (new_res (handle_request env (stk ! idx) q s))
          (calls (handle_request env (stk ! idx) q s) @ p))"
  by (simp add: next_fn_request Let_def)

lemmas run_steps = run_route run_router run_end run_error run_request

lemma events_emit: "events (emit ev out) = ev # events out"
  by (simp add: emit_def)

lemma final_emit:
  "final_req (emit ev out) = final_req out"
  "final_res (emit ev out) = final_res out"
  "final_routes (emit ev out) = final_routes out"
  by (simp_all add: emit_def)

lemma final_routes_run: "final_routes (run env stk h idx q s p) = h"
  by (induction env stk h idx q s p rule: run.induct)
     (simp_all add: final_emit Let_def split: prod.split action.split)

declare run.simps(2) [simp del]

section \<open>A dispatch, call by call\<close>

lemma run_frame:
  "leaves_request env stk \<Longrightarrow>
   final_req (run env stk h idx q s p) = q \<and> final_res (run env stk h idx q s p) = s"
proof (induction env stk h idx q s p rule: run.induct)
  case (1 env stk h idx req res)
  show ?case by simp
next
  case (2 env stk h idx req res arguments pending)
  obtain idx' act where n: "next_fn stk idx arguments = (idx', act)"
    by (cases "next_fn stk idx arguments")
  show ?case
  proof (cases act)
    case (Call_done args)
    with n 2 show ?thesis
      by (simp add: run.simps(2) final_emit)
  next
    case (Call_handle_error e l)
    with n have "l \<in> set stk"
      using next_fn_handle_error [of stk idx arguments idx' e l] by simp
    with 2(4) have "new_req (handle_error env l e req res) = req"
      "new_res (handle_error env l e req res) = res"
      by (simp_all add: leaves_request_def)
    with n Call_handle_error 2 show ?thesis
      by (simp add: run.simps(2) final_emit Let_def)
  next
    case (Call_handle_request l)
    with n have "l \<in> set stk"
      using next_fn_handle_request [of stk idx arguments idx' l] by simp
    with 2(4) have "new_req (handle_request env l req res) = req"
      "new_res (handle_request env l req res) = res"
      by (simp_all add: leaves_request_def)
    with n Call_handle_request 2 show ?thesis
      by (simp add: run.simps(2) final_emit Let_def)
  qed
qed

lemma run_single:
  obtains (finished) args where "events (run env stk h idx q s [a]) = [Done args]"
      and "length args \<le> 1" and "args \<noteq> [JStr ''route'']"
  | (entered) ev eff where "idx < length stk" and "respond env ev = Some eff"
      and "layer_of ev = Some (stk ! idx)"
      and "events (run env stk h idx q s [a]) =
             ev # events (run env stk h (Suc idx) (new_req eff) (new_res eff) (calls eff))"
proof (cases "arg0 a = JStr ''route''")
  case True
  then show ?thesis
    using finished [of "[]"] by (simp add: run_route events_emit)
next
  case nr: False
  show ?thesis
  proof (cases "arg0 a = JStr ''router''")
    case True
    then show ?thesis
      using finished [of "[JStr ''router'']"] by (simp add: run_router events_emit)
  next
    case False
    with nr have ns: "\<not> sentinel (arg0 a)"
      by (simp add: sentinel_def)
    show ?thesis
    proof (cases "idx < length stk")
      case False
      then show ?thesis
        using ns nr finished [of "[arg0 a]"] by (simp add: run_end events_emit)
    next
      case lt: True
      show ?thesis
      proof (cases "truthy (arg0 a)")
        case True
        then show ?thesis
          using ns lt entered [of "Handle_error (stk ! idx) (arg0 a) q s"
              "handle_error env (stk ! idx) (arg0 a) q s"]
          by (simp add: run_error events_emit)
      next
        case False
        then show ?thesis
          using lt entered [of "Handle_request (stk ! idx) q s"
              "handle_request env (stk ! idx) q s"]
          by (simp add: run_request events_emit)
      qed
    qed
  qed
qed

lemma at_most_once_calls:
  assumes "at_most_once env stk" and "idx < length stk"
    and "layer_of ev = Some (stk ! idx)" and "respond env ev = Some eff"
  shows "length (calls eff) \<le> 1"
  using assms by (cases ev) (auto simp: at_most_once_def)

lemma exactly_once_calls:
  assumes "exactly_once env stk" and "idx < length stk"
    and "layer_of ev = Some (stk ! idx)" and "respond env ev = Some eff"
  shows "\<exists>a. calls eff = [a]"
proof -
  have "length (calls eff) = 1"
    using assms by (cases ev) (auto simp: exactly_once_def)
  then show ?thesis
    by (cases "calls eff") simp_all
qed

lemma run_suffix:
  assumes once: "at_most_once env stk"
  shows "length p \<le> 1 \<Longrightarrow> k < length (events (run env stk h idx q s p))
    \<Longrightarrow> respond env (events (run env stk h idx q s p) ! k) = Some eff
    \<Longrightarrow> idx + k < length stk \<and>
        map layer_of (take (Suc k) (events (run env stk h idx q s p))) =
          map Some (take (Suc k) (drop idx stk)) \<and>
        drop (Suc k) (events (run env stk h idx q s p)) =
          events (run env stk h (Suc (idx + k)) (new_req eff) (new_res eff) (calls eff))"
proof (induction k arbitrary: idx q s p)
  case 0
  from 0 obtain a where p: "p = [a]"
    by (cases p) auto
  show ?case
  proof (cases rule: run_single [of env stk h idx q s a])
    case (finished args)
    with 0 p show ?thesis by simp
  next
    case (entered ev eff')
    with 0 p have "eff' = eff" by simp
    with entered p show ?thesis
      by (simp add: take_Suc_conv_app_nth Cons_nth_drop_Suc [symmetric])
  qed
next
  case (Suc k)
  from Suc.prems obtain a where p: "p = [a]"
    by (cases p) auto
  show ?case
  proof (cases rule: run_single [of env stk h idx q s a])
    case (finished args)
    with Suc.prems p show ?thesis by simp
  next
    case (entered ev eff')
    let ?evs = "events (run env stk h (Suc idx) (new_req eff') (new_res eff') (calls eff'))"
    have len: "length (calls eff') \<le> 1"
      using at_most_once_calls [OF once entered(1) entered(3) entered(2)] .
    have k: "k < length ?evs" and r: "respond env (?evs ! k) = Some eff"
      using Suc.prems p entered by simp_all
    from Suc.IH [OF len k r]
    have ih: "Suc idx + k < length stk"
      "map layer_of (take (Suc k) ?evs) = map Some (take (Suc k) (drop (Suc idx) stk))"
      "drop (Suc k) ?evs =
         events (run env stk h (Suc (Suc idx + k)) (new_req eff) (new_res eff) (calls eff))"
      by simp_all
    have d: "drop idx stk = stk ! idx # drop (Suc idx) stk"
      using entered(1) by (simp add: Cons_nth_drop_Suc)
    show ?thesis
      using ih entered p by (simp add: d)
  qed
qed

lemma dispatch_run:
  "stack (h this) \<noteq> [] \<Longrightarrow>
   dispatch env this h req res =
     run env (stack (h this)) h 0 (req\<lparr>route := Some this\<rparr>) res [[]]"
  by (simp add: dispatch_def)

lemma run_all_pass:
  assumes pass: "\<forall>l \<in> set stk. \<forall>q s. calls (handle_request env l q s) = [[]]"
  shows "n = length stk - idx \<Longrightarrow> idx \<le> length stk \<Longrightarrow>
    map action_of (events (run env stk h idx q s [[]])) =
      map Call_handle_request (drop idx stk) @ [Call_done [JUndefined]]"
proof (induction n arbitrary: idx q s)
  case 0
  then show ?case
    by (simp add: run_end events_emit sentinel_def)
next
  case (Suc n)
  then have lt: "idx < length stk" by simp
  then have c: "calls (handle_request env (stk ! idx) q s) = [[]]"
    using pass by simp
  have d: "drop idx stk = stk ! idx # drop (Suc idx) stk"
    using lt by (simp add: Cons_nth_drop_Suc)
  have "map action_of (events (run env stk h (Suc idx)
      (new_req (handle_request env (stk ! idx) q s))
      (new_res (handle_request env (stk ! idx) q s)) [[]])) =
      map Call_handle_request (drop (Suc idx) stk) @ [Call_done [JUndefined]]"
    using Suc lt by (intro Suc.IH) simp_all
  then show ?case
    using lt by (simp add: run_request events_emit c d)
qed

lemma run_error_path:
  assumes skip: "skips_errors env stk" and e: "truthy e" "\<not> sentinel e"
  shows "n = length stk - idx \<Longrightarrow> idx \<le> length stk \<Longrightarrow> arg0 a = e \<Longrightarrow>
    prefix (error_path (error_capable env) e (drop idx stk))
      (map action_of (events (run env stk h idx q s [a])))"
proof (induction n arbitrary: idx q s a)
  case 0
  then show ?case
    using e by (simp add: run_end events_emit)
next
  case (Suc n)
  then have lt: "idx < length stk" by simp
  have d: "drop idx stk = stk ! idx # drop (Suc idx) stk"
    using lt by (simp add: Cons_nth_drop_Suc)
  show ?case
  proof (cases "error_capable env (stk ! idx)")
    case True
    then show ?thesis
      using lt e Suc.prems by (simp add: run_error events_emit d)
  next
    case False
    then have c: "calls (handle_error env (stk ! idx) e q s) = [[e]]"
      using skip lt by (simp add: skips_errors_def)
    have "prefix (error_path (error_capable env) e (drop (Suc idx) stk))
      (map action_of (events (run env stk h (Suc idx)
         (new_req (handle_error env (stk ! idx) e q s))
         (new_res (handle_error env (stk ! idx) e q s)) [[e]])))"
      using Suc.prems lt by (intro Suc.IH) simp_all
    then show ?thesis
      using lt e Suc.prems False by (simp add: run_error events_emit d c)
  qed
qed

lemma run_exactly_once:
  assumes once: "exactly_once env stk"
  shows "n = length stk - idx \<Longrightarrow>
    \<exists>evs args. events (run env stk h idx q s [a]) = evs @ [Done args] \<and>
      (\<forall>ev \<in> set evs. \<not> is_done ev) \<and> length args \<le> 1 \<and> args \<noteq> [JStr ''route'']"
proof (induction n arbitrary: idx q s a)
  case 0
  show ?case
  proof (cases rule: run_single [of env stk h idx q s a])
    case (finished args)
    then show ?thesis by (intro exI [of _ "[]"] exI [of _ args]) simp
  next
    case (entered ev eff)
    with 0 show ?thesis by simp
  qed
next
  case (Suc n)
  show ?case
  proof (cases rule: run_single [of env stk h idx q s a])
    case (finished args)
    then show ?thesis by (intro exI [of _ "[]"] exI [of _ args]) simp
  next
    case (entered ev eff)
    obtain a' where a': "calls eff = [a']"
      using exactly_once_calls [OF once entered(1) entered(3) entered(2)] by blast
    have "n = length stk - Suc idx"
      using Suc.prems by simp
    from Suc.IH [OF this, of "new_req eff" "new_res eff" a']
    obtain evs args where
      "events (run env stk h (Suc idx) (new_req eff) (new_res eff) [a']) = evs @ [Done args]"
      "\<forall>ev \<in> set evs. \<not> is_done ev" "length args \<le> 1" "args \<noteq> [JStr ''route'']"
      by blast
    moreover have "\<not> is_done ev"
      using entered(2) by (cases ev) simp_all
    ultimately show ?thesis
      using entered(4) a' by (intro exI [of _ "ev # evs"] exI [of _ args]) simp
  qed
qed


lemma run_finished:
  assumes "events (run env stk h idx q s [a]) = [Done args]"
  shows "args = (if arg0 a = JStr ''route'' then [] else [arg0 a]) \<and>
    (arg0 a = JStr ''route'' \<or> arg0 a = JStr ''router'' \<or> length stk \<le> idx)"
proof (cases "arg0 a = JStr ''route''")
  case True
  with assms show ?thesis
    by (simp add: run_route events_emit)
next
  case nr: False
  show ?thesis
  proof (cases "arg0 a = JStr ''router''")
    case True
    with assms show ?thesis
      by (simp add: run_router events_emit)
  next
    case False
    with nr have ns: "\<not> sentinel (arg0 a)"
      by (simp add: sentinel_def)
    show ?thesis
    proof (cases "idx < length stk")
      case False
      with assms ns nr show ?thesis
        by (simp add: run_end events_emit)
    next
      case lt: True
      show ?thesis
      proof (cases "truthy (arg0 a)")
        case True
        with assms ns lt show ?thesis
          by (simp add: run_error events_emit)
      next
        case False
        with assms lt show ?thesis
          by (simp add: run_request events_emit)
      qed
    qed
  qed
qed

lemma exactly_once_at_most_once: "exactly_once env stk \<Longrightarrow> at_most_once env stk"
  by (simp add: exactly_once_def at_most_once_def)

lemma not_done_respond: "\<not> is_done ev \<Longrightarrow> \<exists>eff. respond env ev = Some eff"
  by (cases ev) simp_all

lemma thread_run:
  "thread env (events (run env stk h idx q s p)) (q, s) =
     Some (final_req (run env stk h idx q s p), final_res (run env stk h idx q s p))"
proof (induction env stk h idx q s p rule: run.induct)
  case (1 env stk h idx req res)
  show ?case by simp
next
  case (2 env stk h idx req res arguments pending)
  obtain idx' act where n: "next_fn stk idx arguments = (idx', act)"
    by (cases "next_fn stk idx arguments")
  show ?case
  proof (cases act)
    case (Call_done args)
    with n 2 show ?thesis
      by (simp add: run.simps(2) final_emit events_emit)
  next
    case (Call_handle_error e l)
    with n 2 show ?thesis
      by (simp add: run.simps(2) final_emit events_emit Let_def)
  next
    case (Call_handle_request l)
    with n 2 show ?thesis
      by (simp add: run.simps(2) final_emit events_emit Let_def)
  qed
qed

section \<open>Registration, in closed form\<close>

lemma all_loop_eq:
  "all_loop stk handles =
     (map_option
        (\<lambda>v. TypeError (''Route.all() requires a callback function but got a '' @ toString v))
        (find (\<lambda>v. \<not> is_function v) handles),
      stk @ map (Layer ''/'' []) (takeWhile is_function handles))"
  by (induction handles arbitrary: stk) (simp_all add: is_function_def)

lemma get_loop_eq:
  "get_loop stk handles =
     (map_option
        (\<lambda>v. Error (''Route.get() requires a callback function but got a '' @ toString v))
        (find (\<lambda>v. \<not> is_function v) handles),
      stk @ map (Layer ''/'' []) (takeWhile is_function handles))"
  by (induction handles arbitrary: stk) (simp_all add: is_function_def)

lemma snd_all:
  "snd (all this arguments h) =
     h(this := (h this)\<lparr>stack := stack (h this) @
        map (Layer ''/'' []) (takeWhile is_function (flatten arguments))\<rparr>)"
  by (simp add: all_def all_loop_eq Let_def split: option.split)

lemma snd_get:
  "snd (get this arguments h) =
     h(this := (h this)\<lparr>stack := stack (h this) @
        map (Layer ''/'' []) (takeWhile is_function (flatten arguments))\<rparr>)"
  by (simp add: get_def get_loop_eq Let_def split: option.split)

lemma fst_all:
  "fst (all this arguments h) =
     (case find (\<lambda>v. \<not> is_function v) (flatten arguments) of
        None \<Rightarrow> Inr this
      | Some v \<Rightarrow>
          Inl (TypeError (''Route.all() requires a callback function but got a '' @ toString v)))"
  by (cases "find (\<lambda>v. \<not> is_function v) (flatten arguments)")
     (simp_all add: all_def all_loop_eq Let_def)

lemma fst_get:
  "fst (get this arguments h) =
     (case find (\<lambda>v. \<not> is_function v) (flatten arguments) of
        None \<Rightarrow> Inr this
      | Some v \<Rightarrow>
          Inl (Error (''Route.get() requires a callback function but got a '' @ toString v)))"
  by (cases "find (\<lambda>v. \<not> is_function v) (flatten arguments)")
     (simp_all add: get_def get_loop_eq Let_def)

lemma find_first:
  "\<forall>f \<in> set fs. P f \<Longrightarrow> \<not> P v \<Longrightarrow> find (\<lambda>v. \<not> P v) (fs @ v # rest) = Some v"
  by (induction fs) simp_all

lemma takeWhile_first:
  "\<forall>f \<in> set fs. P f \<Longrightarrow> \<not> P v \<Longrightarrow> takeWhile P (fs @ v # rest) = fs"
  by (induction fs) simp_all

lemma stack_registered:
  "stack (registered handlers 0) =
     map (Layer ''/'' []) (takeWhile is_function (flatten handlers))"
  by (simp add: registered_def snd_all no_routes_def Route_def)

section \<open>Registration: what the calls return and what they leave\<close>

text \<open>
  Claim C2, as the code has it. When the flattened argument list of \<^verbatim>\<open>all\<close> or
  \<^verbatim>\<open>get\<close> is \<open>fs @ v # rest\<close> with \<open>v\<close> its first value that is not a function, the
  call throws, before it returns and without entering any layer (registration
  has no access to the entry points): \<^verbatim>\<open>all\<close> a \<^verbatim>\<open>TypeError\<close>, \<^verbatim>\<open>get\<close> an exception,
  whose message ends with \<^verbatim>\<open>Object.prototype.toString\<close> of \<open>v\<close>. The loop pushes as it
  checks, so the layers of the functions \<open>fs\<close> that precede \<open>v\<close> are on the stack
  when the exception leaves, and nothing of \<open>v # rest\<close> is.
\<close>

theorem registration_throws:
  assumes "flatten arguments = fs @ v # rest"
    and "\<forall>f \<in> set fs. typeof f = ''function''"
    and "typeof v \<noteq> ''function''"
  shows "all this arguments h =
           (Inl (TypeError (''Route.all() requires a callback function but got a '' @ toString v)),
            h(this := (h this)\<lparr>stack := stack (h this) @ map (Layer ''/'' []) fs\<rparr>)) \<and>
         (\<exists>e. get this arguments h =
           (Inl e, h(this := (h this)\<lparr>stack := stack (h this) @ map (Layer ''/'' []) fs\<rparr>)) \<and>
           message e = ''Route.get() requires a callback function but got a '' @ toString v)"
proof -
  have tw: "takeWhile is_function (flatten arguments) = fs"
    using assms takeWhile_first [of fs is_function v rest] by (simp add: is_function_def)
  have dw: "find (\<lambda>v. \<not> is_function v) (flatten arguments) = Some v"
    using assms find_first [of fs is_function v rest] by (simp add: is_function_def)
  have "all this arguments h =
           (Inl (TypeError (''Route.all() requires a callback function but got a '' @ toString v)),
            h(this := (h this)\<lparr>stack := stack (h this) @ map (Layer ''/'' []) fs\<rparr>))"
    using fst_all [of this arguments h] snd_all [of this arguments h]
    by (simp add: tw dw prod_eq_iff)
  moreover have "\<exists>e. get this arguments h =
           (Inl e, h(this := (h this)\<lparr>stack := stack (h this) @ map (Layer ''/'' []) fs\<rparr>)) \<and>
           message e = ''Route.get() requires a callback function but got a '' @ toString v"
    using fst_get [of this arguments h] snd_get [of this arguments h]
    by (simp add: tw dw prod_eq_iff)
  ultimately show ?thesis by simp
qed

theorem registration_throws_witness:
  "flatten [JFun 1 3, JArr [JFun 2 3, JNull], JFun 3 3] = [JFun 1 3, JFun 2 3] @ JNull # [JFun 3 3] \<and>
   typeof (JFun 1 3) = ''function'' \<and> typeof (JFun 2 3) = ''function'' \<and>
   typeof JNull \<noteq> ''function'' \<and>
   all 0 [JFun 1 3, JArr [JFun 2 3, JNull], JFun 3 3] no_routes =
     (Inl (TypeError ''Route.all() requires a callback function but got a [object Null]''),
      no_routes(0 := (no_routes 0)\<lparr>stack := [Layer ''/'' [] (JFun 1 3), Layer ''/'' [] (JFun 2 3)]\<rparr>))"
proof -
  have f: "flatten [JFun 1 3, JArr [JFun 2 3, JNull], JFun 3 3] = [JFun 1 3, JFun 2 3] @ JNull # [JFun 3 3]"
    by simp
  have fs: "\<forall>f \<in> set [JFun 1 3, JFun 2 3]. typeof f = ''function''"
    by simp
  have v: "typeof JNull \<noteq> ''function''"
    by simp
  show ?thesis
    using f registration_throws [OF f fs v, of 0 no_routes]
    by (simp add: no_routes_def Route_def)
qed

text \<open>
  Claim C2 as stated says that no layer is added by a call that throws. On a new
  route, \<^verbatim>\<open>route.all(f, 5)\<close> throws and leaves the layer of \<^verbatim>\<open>f\<close> on the stack.
\<close>

theorem registration_not_atomic_counterexample:
  "fst (all 0 [JFun 1 3, JNum 5] no_routes) =
     Inl (TypeError ''Route.all() requires a callback function but got a [object Number]'') \<and>
   stack (no_routes 0) = [] \<and>
   stack (snd (all 0 [JFun 1 3, JNum 5] no_routes) 0) = [Layer ''/'' [] (JFun 1 3)]"
  by (simp add: fst_all snd_all is_function_def no_routes_def Route_def)

text \<open>
  Claim C8. A call of \<^verbatim>\<open>all\<close> or \<^verbatim>\<open>get\<close>, whether it returns or throws, changes the
  store at the stack of its own route only, and that stack by appending: what was
  on it stays, at its position. A dispatch leaves the store as it found it.
\<close>

theorem stack_append_only:
  "(\<exists>added. snd (all this arguments h) =
      h(this := (h this)\<lparr>stack := stack (h this) @ added\<rparr>)) \<and>
   (\<exists>added. snd (get this arguments h) =
      h(this := (h this)\<lparr>stack := stack (h this) @ added\<rparr>)) \<and>
   final_routes (dispatch env this h req res) = h"
  by (auto simp: snd_all snd_get dispatch_def final_emit final_routes_run Let_def)

theorem stack_append_only_witness:
  "stack (snd (get 0 [JFun 2 3, JNum 5] (registered [JFun 1 3])) 0) =
     stack (registered [JFun 1 3] 0) @ [Layer ''/'' [] (JFun 2 3)] \<and>
   final_routes (dispatch demo_env 0 (registered [JFun 1 3]) req0 ()) = registered [JFun 1 3]"
  using stack_append_only [of 0 "[JFun 2 3, JNum 5]" "registered [JFun 1 3]" demo_env req0 "()"]
  by (simp add: snd_get is_function_def)

text \<open>
  Claim C10. A call of \<^verbatim>\<open>all\<close> or \<^verbatim>\<open>get\<close> that does not throw returns the reference it
  was called on; when the flattened argument list is empty the call returns that
  reference and the store is unchanged.
\<close>

theorem registration_returns_this:
  "((\<forall>e. fst (all this arguments h) \<noteq> Inl e) \<longrightarrow> fst (all this arguments h) = Inr this) \<and>
   ((\<forall>e. fst (get this arguments h) \<noteq> Inl e) \<longrightarrow> fst (get this arguments h) = Inr this) \<and>
   (flatten arguments = [] \<longrightarrow>
      all this arguments h = (Inr this, h) \<and> get this arguments h = (Inr this, h))"
proof (intro conjI impI)
  assume "\<forall>e. fst (all this arguments h) \<noteq> Inl e"
  then show "fst (all this arguments h) = Inr this"
    by (simp add: fst_all split: option.splits)
next
  assume "\<forall>e. fst (get this arguments h) \<noteq> Inl e"
  then show "fst (get this arguments h) = Inr this"
    by (simp add: fst_get split: option.splits)
next
  assume "flatten arguments = []"
  then show "all this arguments h = (Inr this, h)" by (simp add: all_def)
next
  assume "flatten arguments = []"
  then show "get this arguments h = (Inr this, h)" by (simp add: get_def)
qed

theorem registration_returns_this_witness:
  "fst (all 0 [JFun 1 3, JArr [JFun 7 4]] no_routes) = Inr 0 \<and>
   fst (get 0 [JFun 1 3, JArr [JFun 7 4]] no_routes) = Inr 0 \<and>
   flatten [JArr [], JArr [JArr []]] = [] \<and>
   all 0 [JArr [], JArr [JArr []]] no_routes = (Inr 0, no_routes) \<and>
   get 0 [JArr [], JArr [JArr []]] no_routes = (Inr 0, no_routes)"
proof -
  have a: "\<forall>e. fst (all 0 [JFun 1 3, JArr [JFun 7 4]] no_routes) \<noteq> Inl e"
    by (simp add: fst_all is_function_def)
  have g: "\<forall>e. fst (get 0 [JFun 1 3, JArr [JFun 7 4]] no_routes) \<noteq> Inl e"
    by (simp add: fst_get is_function_def)
  have f: "flatten [JArr [], JArr [JArr []]] = []"
    by simp
  have 1: "fst (all 0 [JFun 1 3, JArr [JFun 7 4]] no_routes) = Inr 0"
    using a registration_returns_this [of 0 "[JFun 1 3, JArr [JFun 7 4]]" no_routes] by blast
  have 2: "fst (get 0 [JFun 1 3, JArr [JFun 7 4]] no_routes) = Inr 0"
    using g registration_returns_this [of 0 "[JFun 1 3, JArr [JFun 7 4]]" no_routes] by blast
  have 3: "all 0 [JArr [], JArr [JArr []]] no_routes = (Inr 0, no_routes) \<and>
      get 0 [JArr [], JArr [JArr []]] no_routes = (Inr 0, no_routes)"
    using f registration_returns_this [of 0 "[JArr [], JArr [JArr []]]" no_routes] by blast
  from 1 2 f 3 show ?thesis by blast
qed

section \<open>Dispatch on an empty route\<close>

text \<open>
  Claim C7. On a route whose stack is empty, \<^verbatim>\<open>dispatch\<close> makes one call, \<^verbatim>\<open>done()\<close>
  with no argument, before it returns; no layer is entered, and the request, the
  response and the store are as they were.
\<close>

theorem dispatch_empty_stack:
  assumes "stack (h this) = []"
  shows "dispatch env this h req res =
           \<lparr>events = [Done []], final_req = req, final_res = res, final_routes = h\<rparr>"
  using assms by (simp add: dispatch_def emit_def)

theorem dispatch_empty_stack_witness:
  "stack (no_routes 0) = [] \<and>
   dispatch demo_env 0 no_routes req0 () =
     \<lparr>events = [Done []], final_req = req0, final_res = (), final_routes = no_routes\<rparr>"
  using dispatch_empty_stack [of no_routes 0 demo_env req0 "()"]
  by (simp add: no_routes_def Route_def)

section \<open>The example handlers, evaluated\<close>

lemma demo_env_simps:
  "handle_request demo_env l q s = \<lparr>new_req = q, new_res = s, calls = on_request (layer_handle l)\<rparr>"
  "handle_error demo_env l e q s = \<lparr>new_req = q, new_res = s, calls = on_error (layer_handle l) e\<rparr>"
  "error_capable demo_env l = four_parameters (layer_handle l)"
  by (simp_all add: demo_env_def)

lemma layer_handle_Layer: "layer_handle (Layer pattern options handler) = handler"
  by (simp add: Layer_def)

lemmas demo_eval = dispatch_def Let_def stack_registered is_function_def run_steps events_emit
  sentinel_def demo_env_simps layer_handle_Layer boom_def

section \<open>Dispatch over a stack of layers\<close>

lemma dispatch_suffix:
  assumes once: "at_most_once env (stack (h this))"
    and i: "i < length (events (dispatch env this h req res))"
    and r: "respond env (events (dispatch env this h req res) ! i) = Some eff"
  shows "i < length (stack (h this)) \<and>
    map layer_of (take (Suc i) (events (dispatch env this h req res))) =
      map Some (take (Suc i) (stack (h this))) \<and>
    drop (Suc i) (events (dispatch env this h req res)) =
      events (run env (stack (h this)) h (Suc i) (new_req eff) (new_res eff) (calls eff))"
proof (cases "stack (h this) = []")
  case True
  then have "events (dispatch env this h req res) = [Done []]"
    by (simp add: dispatch_def events_emit)
  with i r show ?thesis by simp
next
  case False
  then have d: "dispatch env this h req res =
      run env (stack (h this)) h 0 (req\<lparr>route := Some this\<rparr>) res [[]]"
    by (rule dispatch_run)
  show ?thesis
    using run_suffix [OF once, of "[[]]" i h 0 "req\<lparr>route := Some this\<rparr>" res eff] i r
    by (simp add: d)
qed

text \<open>
  Claim C1. On a route whose stack is not empty and whose layers, entered in
  normal mode, each call the continuation exactly once and with no argument,
  \<^verbatim>\<open>dispatch\<close> enters every layer through \<^verbatim>\<open>handle_request\<close>, once, in the order of
  registration, and after the last layer has advanced it calls \<^verbatim>\<open>done(err)\<close> with
  \<^verbatim>\<open>err\<close> undefined: with no error.
\<close>

theorem dispatch_in_order:
  assumes "stack (h this) \<noteq> []"
    and "\<forall>l \<in> set (stack (h this)). \<forall>q s. calls (handle_request env l q s) = [[]]"
  shows "map action_of (events (dispatch env this h req res)) =
           map Call_handle_request (stack (h this)) @ [Call_done [JUndefined]]"
  using run_all_pass [OF assms(2), of "length (stack (h this))" 0 h "req\<lparr>route := Some this\<rparr>" res]
    assms(1)
  by (simp add: dispatch_run)

theorem dispatch_in_order_witness:
  "stack (registered [JFun 11 3, JArr [JFun 9 3]] 0) \<noteq> [] \<and>
   map action_of (events (dispatch demo_env 0 (registered [JFun 11 3, JArr [JFun 9 3]]) req0 ())) =
     [Call_handle_request (Layer ''/'' [] (JFun 11 3)),
      Call_handle_request (Layer ''/'' [] (JFun 9 3)),
      Call_done [JUndefined]]"
proof -
  have ne: "stack (registered [JFun 11 3, JArr [JFun 9 3]] 0) \<noteq> []"
    by (simp add: stack_registered is_function_def)
  have pass: "\<forall>l \<in> set (stack (registered [JFun 11 3, JArr [JFun 9 3]] 0)).
      \<forall>q s. calls (handle_request demo_env l q s) = [[]]"
    by (simp add: stack_registered is_function_def demo_env_simps layer_handle_Layer)
  show ?thesis
    using ne dispatch_in_order
      [where h = "registered [JFun 11 3, JArr [JFun 9 3]]" and this = 0, OF ne pass, of req0 "()"]
    by (simp add: stack_registered is_function_def)
qed

text \<open>
  Claim C3, as the code has it. Let every layer of the route call its continuation
  at most once each time it is entered. If call number \<open>i\<close> of a dispatch, counted
  from 0, enters a layer and that layer calls its continuation with \<^verbatim>\<open>'route'\<close>,
  then the calls up to it entered the layers at the positions 0 to \<open>i\<close>, in order,
  and the one call after it is \<^verbatim>\<open>done()\<close> with no argument: no layer at a position
  after \<open>i\<close> is entered.
\<close>

theorem route_sentinel_ends_dispatch:
  assumes "at_most_once env (stack (h this))"
    and "i < length (events (dispatch env this h req res))"
    and "respond env (events (dispatch env this h req res) ! i) = Some eff"
    and "calls eff = [a]"
    and "arg0 a = JStr ''route''"
  shows "i < length (stack (h this)) \<and>
    map layer_of (take (Suc i) (events (dispatch env this h req res))) =
      map Some (take (Suc i) (stack (h this))) \<and>
    drop (Suc i) (events (dispatch env this h req res)) = [Done []]"
  using dispatch_suffix [OF assms(1) assms(2) assms(3)] assms(4) assms(5)
  by (simp add: run_route events_emit)

theorem route_sentinel_ends_dispatch_witness:
  "at_most_once demo_env (stack ((registered [JFun 11 3, JFun 3 3, JFun 5 3]) 0)) \<and>
   Suc 0 < length (events (dispatch demo_env 0 (registered [JFun 11 3, JFun 3 3, JFun 5 3]) req0 ())) \<and>
   respond demo_env ((events (dispatch demo_env 0 (registered [JFun 11 3, JFun 3 3, JFun 5 3]) req0 ())) ! Suc 0) =
     Some \<lparr>new_req = req0\<lparr>route := Some 0\<rparr>, new_res = (), calls = [[JStr ''route'']]\<rparr> \<and>
   map layer_of (take (Suc (Suc 0)) (events (dispatch demo_env 0 (registered [JFun 11 3, JFun 3 3, JFun 5 3]) req0 ()))) =
     [Some (Layer ''/'' [] (JFun 11 3)), Some (Layer ''/'' [] (JFun 3 3))] \<and>
   drop (Suc (Suc 0)) (events (dispatch demo_env 0 (registered [JFun 11 3, JFun 3 3, JFun 5 3]) req0 ())) = [Done []]"
proof -
  have ev: "(events (dispatch demo_env 0 (registered [JFun 11 3, JFun 3 3, JFun 5 3]) req0 ())) =
      [Handle_request (Layer ''/'' [] (JFun 11 3)) (req0\<lparr>route := Some 0\<rparr>) (), Handle_request (Layer ''/'' [] (JFun 3 3)) (req0\<lparr>route := Some 0\<rparr>) (), Done []]"
    by (simp add: demo_eval)
  have once: "at_most_once demo_env (stack ((registered [JFun 11 3, JFun 3 3, JFun 5 3]) 0))"
    by (simp add: at_most_once_def stack_registered is_function_def demo_env_simps
        layer_handle_Layer)
  have i: "Suc 0 < length (events (dispatch demo_env 0 (registered [JFun 11 3, JFun 3 3, JFun 5 3]) req0 ()))"
    by (simp add: ev)
  have r: "respond demo_env ((events (dispatch demo_env 0 (registered [JFun 11 3, JFun 3 3, JFun 5 3]) req0 ())) ! Suc 0) =
      Some \<lparr>new_req = req0\<lparr>route := Some 0\<rparr>, new_res = (), calls = [[JStr ''route'']]\<rparr>"
    by (simp add: ev demo_env_simps layer_handle_Layer)
  have c: "calls \<lparr>new_req = req0\<lparr>route := Some 0\<rparr>, new_res = (), calls = [[JStr ''route'']]\<rparr> = [[JStr ''route'']]"
    by simp
  have a: "arg0 [JStr ''route''] = JStr ''route''"
    by simp
  have "Suc 0 < length (stack ((registered [JFun 11 3, JFun 3 3, JFun 5 3]) 0)) \<and>
    map layer_of (take (Suc (Suc 0)) (events (dispatch demo_env 0 (registered [JFun 11 3, JFun 3 3, JFun 5 3]) req0 ()))) = map Some (take (Suc (Suc 0)) (stack ((registered [JFun 11 3, JFun 3 3, JFun 5 3]) 0))) \<and>
    drop (Suc (Suc 0)) (events (dispatch demo_env 0 (registered [JFun 11 3, JFun 3 3, JFun 5 3]) req0 ())) = [Done []]"
    using once i r c a by (rule route_sentinel_ends_dispatch)
  then show ?thesis
    using once i r by (simp add: stack_registered is_function_def)
qed

text \<open>
  Claim C3 as stated holds for every dispatch, and \<^verbatim>\<open>next\<close> has no guard against a
  second call. Of three handlers let the first call \<^verbatim>\<open>next()\<close> twice and the second
  \<^verbatim>\<open>next('route')\<close>: the layer at position 1 calls its continuation with \<^verbatim>\<open>'route'\<close>,
  \<^verbatim>\<open>done()\<close> is called, and the second call of the first handler then enters the
  layer at position 2.
\<close>

theorem route_sentinel_counterexample:
  "calls (handle_request demo_env (stack ((registered [JFun 2 3, JFun 3 3, JFun 5 3]) 0) ! 1) (req0\<lparr>route := Some 0\<rparr>) ()) = [[JStr ''route'']] \<and>
   map action_of (events (dispatch demo_env 0 (registered [JFun 2 3, JFun 3 3, JFun 5 3]) req0 ())) =
     [Call_handle_request (Layer ''/'' [] (JFun 2 3)), Call_handle_request (Layer ''/'' [] (JFun 3 3)), Call_done [],
      Call_handle_request (Layer ''/'' [] (JFun 5 3))]"
  by (simp add: demo_eval)

text \<open>
  Claim C4, as the code has it. Let every layer of the route call its continuation
  at most once each time it is entered. If call number \<open>i\<close> of a dispatch enters a
  layer and that layer calls its continuation with \<^verbatim>\<open>'router'\<close>, then the calls up to
  it entered the layers at the positions 0 to \<open>i\<close>, in order, and the one call
  after it is \<^verbatim>\<open>done('router')\<close>: no further layer is entered.
\<close>

theorem router_sentinel_ends_dispatch:
  assumes "at_most_once env (stack (h this))"
    and "i < length (events (dispatch env this h req res))"
    and "respond env (events (dispatch env this h req res) ! i) = Some eff"
    and "calls eff = [a]"
    and "arg0 a = JStr ''router''"
  shows "i < length (stack (h this)) \<and>
    map layer_of (take (Suc i) (events (dispatch env this h req res))) =
      map Some (take (Suc i) (stack (h this))) \<and>
    drop (Suc i) (events (dispatch env this h req res)) = [Done [JStr ''router'']]"
  using dispatch_suffix [OF assms(1) assms(2) assms(3)] assms(4) assms(5)
  by (simp add: run_router events_emit)

theorem router_sentinel_ends_dispatch_witness:
  "at_most_once demo_env (stack ((registered [JFun 11 3, JFun 4 3, JFun 5 3]) 0)) \<and>
   Suc 0 < length (events (dispatch demo_env 0 (registered [JFun 11 3, JFun 4 3, JFun 5 3]) req0 ())) \<and>
   respond demo_env ((events (dispatch demo_env 0 (registered [JFun 11 3, JFun 4 3, JFun 5 3]) req0 ())) ! Suc 0) =
     Some \<lparr>new_req = req0\<lparr>route := Some 0\<rparr>, new_res = (), calls = [[JStr ''router'']]\<rparr> \<and>
   map layer_of (take (Suc (Suc 0)) (events (dispatch demo_env 0 (registered [JFun 11 3, JFun 4 3, JFun 5 3]) req0 ()))) =
     [Some (Layer ''/'' [] (JFun 11 3)), Some (Layer ''/'' [] (JFun 4 3))] \<and>
   drop (Suc (Suc 0)) (events (dispatch demo_env 0 (registered [JFun 11 3, JFun 4 3, JFun 5 3]) req0 ())) = [Done [JStr ''router'']]"
proof -
  have ev: "(events (dispatch demo_env 0 (registered [JFun 11 3, JFun 4 3, JFun 5 3]) req0 ())) =
      [Handle_request (Layer ''/'' [] (JFun 11 3)) (req0\<lparr>route := Some 0\<rparr>) (), Handle_request (Layer ''/'' [] (JFun 4 3)) (req0\<lparr>route := Some 0\<rparr>) (), Done [JStr ''router'']]"
    by (simp add: demo_eval)
  have once: "at_most_once demo_env (stack ((registered [JFun 11 3, JFun 4 3, JFun 5 3]) 0))"
    by (simp add: at_most_once_def stack_registered is_function_def demo_env_simps
        layer_handle_Layer)
  have i: "Suc 0 < length (events (dispatch demo_env 0 (registered [JFun 11 3, JFun 4 3, JFun 5 3]) req0 ()))"
    by (simp add: ev)
  have r: "respond demo_env ((events (dispatch demo_env 0 (registered [JFun 11 3, JFun 4 3, JFun 5 3]) req0 ())) ! Suc 0) =
      Some \<lparr>new_req = req0\<lparr>route := Some 0\<rparr>, new_res = (), calls = [[JStr ''router'']]\<rparr>"
    by (simp add: ev demo_env_simps layer_handle_Layer)
  have c: "calls \<lparr>new_req = req0\<lparr>route := Some 0\<rparr>, new_res = (), calls = [[JStr ''router'']]\<rparr> = [[JStr ''router'']]"
    by simp
  have a: "arg0 [JStr ''router''] = JStr ''router''"
    by simp
  have "Suc 0 < length (stack ((registered [JFun 11 3, JFun 4 3, JFun 5 3]) 0)) \<and>
    map layer_of (take (Suc (Suc 0)) (events (dispatch demo_env 0 (registered [JFun 11 3, JFun 4 3, JFun 5 3]) req0 ()))) = map Some (take (Suc (Suc 0)) (stack ((registered [JFun 11 3, JFun 4 3, JFun 5 3]) 0))) \<and>
    drop (Suc (Suc 0)) (events (dispatch demo_env 0 (registered [JFun 11 3, JFun 4 3, JFun 5 3]) req0 ())) = [Done [JStr ''router'']]"
    using once i r c a by (rule router_sentinel_ends_dispatch)
  then show ?thesis
    using once i r by (simp add: stack_registered is_function_def)
qed

text \<open>
  Claim C4 as stated fails in the same way: the first handler calls \<^verbatim>\<open>next()\<close>
  twice, the second calls \<^verbatim>\<open>next('router')\<close>, \<^verbatim>\<open>done('router')\<close> is called, and the
  second call of the first handler enters the layer at position 2.
\<close>

theorem router_sentinel_counterexample:
  "calls (handle_request demo_env (stack ((registered [JFun 2 3, JFun 4 3, JFun 5 3]) 0) ! 1) (req0\<lparr>route := Some 0\<rparr>) ()) = [[JStr ''router'']] \<and>
   map action_of (events (dispatch demo_env 0 (registered [JFun 2 3, JFun 4 3, JFun 5 3]) req0 ())) =
     [Call_handle_request (Layer ''/'' [] (JFun 2 3)), Call_handle_request (Layer ''/'' [] (JFun 4 3)), Call_done [JStr ''router''],
      Call_handle_request (Layer ''/'' [] (JFun 5 3))]"
  by (simp add: demo_eval)

text \<open>
  Claim C5, as the code has it. Let every layer of the route call its continuation
  at most once each time it is entered, and let every layer that is not
  error-capable, entered with an error, hand that error on unchanged. If call
  number \<open>i\<close> of a dispatch enters a layer and that layer calls its continuation
  with a value \<open>e\<close> that is truthy and neither \<^verbatim>\<open>'route'\<close> nor \<^verbatim>\<open>'router'\<close>, then the
  calls that follow enter the layers after position \<open>i\<close> with \<open>e\<close>, in order, up to
  the first that is error-capable; when there is none, \<^verbatim>\<open>done\<close> is called with
  \<open>e\<close> itself.
\<close>

theorem error_reaches_error_layer:
  assumes "at_most_once env (stack (h this))"
    and "skips_errors env (stack (h this))"
    and "i < length (events (dispatch env this h req res))"
    and "respond env (events (dispatch env this h req res) ! i) = Some eff"
    and "calls eff = [a]"
    and "truthy (arg0 a)"
    and "arg0 a \<noteq> JStr ''route''"
    and "arg0 a \<noteq> JStr ''router''"
  shows "i < length (stack (h this)) \<and>
    map layer_of (take (Suc i) (events (dispatch env this h req res))) =
      map Some (take (Suc i) (stack (h this))) \<and>
    prefix (error_path (error_capable env) (arg0 a) (drop (Suc i) (stack (h this))))
      (map action_of (drop (Suc i) (events (dispatch env this h req res))))"
proof -
  have s: "i < length (stack (h this))"
    "map layer_of (take (Suc i) (events (dispatch env this h req res))) =
      map Some (take (Suc i) (stack (h this)))"
    "drop (Suc i) (events (dispatch env this h req res)) =
      events (run env (stack (h this)) h (Suc i) (new_req eff) (new_res eff) [a])"
    using dispatch_suffix [OF assms(1) assms(3) assms(4)] assms(5) by simp_all
  have ns: "\<not> sentinel (arg0 a)"
    using assms(7) assms(8) by (simp add: sentinel_def)
  have "prefix (error_path (error_capable env) (arg0 a) (drop (Suc i) (stack (h this))))
      (map action_of (events (run env (stack (h this)) h (Suc i) (new_req eff) (new_res eff) [a])))"
    using s(1) by (intro run_error_path [OF assms(2) assms(6) ns]) simp_all
  with s show ?thesis by simp
qed

theorem error_reaches_error_layer_witness:
  "at_most_once demo_env (stack (registered [JFun 6 3, JFun 11 3, JFun 7 4, JFun 12 3] 0)) \<and>
   skips_errors demo_env (stack (registered [JFun 6 3, JFun 11 3, JFun 7 4, JFun 12 3] 0)) \<and>
   respond demo_env
     (events (dispatch demo_env 0 (registered [JFun 6 3, JFun 11 3, JFun 7 4, JFun 12 3]) req0 ()) ! 0) =
     Some \<lparr>new_req = req0\<lparr>route := Some 0\<rparr>, new_res = (), calls = [[boom]]\<rparr> \<and>
   truthy boom \<and>
   prefix
     [Call_handle_error boom (Layer ''/'' [] (JFun 11 3)),
      Call_handle_error boom (Layer ''/'' [] (JFun 7 4))]
     (map action_of (drop (Suc 0)
        (events (dispatch demo_env 0 (registered [JFun 6 3, JFun 11 3, JFun 7 4, JFun 12 3]) req0 ()))))"
proof -
  let ?R = "registered [JFun 6 3, JFun 11 3, JFun 7 4, JFun 12 3]"
  let ?eff = "\<lparr>new_req = req0\<lparr>route := Some 0\<rparr>, new_res = (), calls = [[boom]]\<rparr>"
  have ev: "events (dispatch demo_env 0 ?R req0 ()) =
      [Handle_request (Layer ''/'' [] (JFun 6 3)) (req0\<lparr>route := Some 0\<rparr>) (),
       Handle_error (Layer ''/'' [] (JFun 11 3)) (JObj ''Error'' 100) (req0\<lparr>route := Some 0\<rparr>) (),
       Handle_error (Layer ''/'' [] (JFun 7 4)) (JObj ''Error'' 100) (req0\<lparr>route := Some 0\<rparr>) (),
       Handle_request (Layer ''/'' [] (JFun 12 3)) (req0\<lparr>route := Some 0\<rparr>) (),
       Done [JUndefined]]"
    by (simp add: demo_eval)
  have once: "at_most_once demo_env (stack (?R 0))"
    by (simp add: at_most_once_def stack_registered is_function_def demo_env_simps
        layer_handle_Layer)
  have skip: "skips_errors demo_env (stack (?R 0))"
    by (simp add: skips_errors_def stack_registered is_function_def demo_env_simps
        layer_handle_Layer)
  have i: "0 < length (events (dispatch demo_env 0 ?R req0 ()))"
    by (simp add: ev)
  have r: "respond demo_env (events (dispatch demo_env 0 ?R req0 ()) ! 0) = Some ?eff"
    by (simp add: ev demo_env_simps layer_handle_Layer)
  have c: "calls ?eff = [[boom]]"
    by simp
  have t: "truthy (arg0 [boom])" "arg0 [boom] \<noteq> JStr ''route''" "arg0 [boom] \<noteq> JStr ''router''"
    by (simp_all add: boom_def)
  have "0 < length (stack (?R 0)) \<and>
    map layer_of (take (Suc 0) (events (dispatch demo_env 0 ?R req0 ()))) =
      map Some (take (Suc 0) (stack (?R 0))) \<and>
    prefix (error_path (error_capable demo_env) (arg0 [boom]) (drop (Suc 0) (stack (?R 0))))
      (map action_of (drop (Suc 0) (events (dispatch demo_env 0 ?R req0 ()))))"
    using once skip i r c t by (rule error_reaches_error_layer)
  then have "prefix (error_path (error_capable demo_env) boom (drop (Suc 0) (stack (?R 0))))
      (map action_of (drop (Suc 0) (events (dispatch demo_env 0 ?R req0 ()))))"
    by simp
  moreover have "error_path (error_capable demo_env) boom (drop (Suc 0) (stack (?R 0))) =
      [Call_handle_error boom (Layer ''/'' [] (JFun 11 3)),
       Call_handle_error boom (Layer ''/'' [] (JFun 7 4))]"
    by (simp add: stack_registered is_function_def demo_env_simps layer_handle_Layer)
  ultimately show ?thesis
    using once skip r t(1) by simp
qed

text \<open>
  Claim C5 as stated fails when the layer that raises the error has called its
  continuation before: the first handler calls \<^verbatim>\<open>next()\<close> and then \<^verbatim>\<open>next(boom)\<close>, the
  second is error-capable. The first call takes the cursor past the second layer,
  in normal mode, and to the end; the error then goes to \<^verbatim>\<open>done\<close>, and never to the
  error-capable layer that follows the one that raised it.
\<close>

theorem error_skips_error_layer_counterexample:
  "skips_errors demo_env (stack (registered [JFun 8 3, JFun 7 4] 0)) \<and>
   error_capable demo_env (stack (registered [JFun 8 3, JFun 7 4] 0) ! 1) \<and>
   calls (handle_request demo_env (stack (registered [JFun 8 3, JFun 7 4] 0) ! 0)
     (req0\<lparr>route := Some 0\<rparr>) ()) = [[], [boom]] \<and>
   map action_of (events (dispatch demo_env 0 (registered [JFun 8 3, JFun 7 4]) req0 ())) =
     [Call_handle_request (Layer ''/'' [] (JFun 8 3)),
      Call_handle_request (Layer ''/'' [] (JFun 7 4)),
      Call_done [JUndefined],
      Call_done [boom]]"
  by (simp add: demo_eval skips_errors_def)

text \<open>
  Claim C6, as the code has it. When every layer of the route calls its
  continuation exactly once each time it is entered, \<^verbatim>\<open>done\<close> is called exactly once,
  as the last call of the dispatch, after the layers at the first positions of the
  stack, in order. On an empty route it is called with no argument. Otherwise its
  arguments come from the one continuation call of the last layer entered: none
  when that call carried \<^verbatim>\<open>'route'\<close>, and else the value it carried, which is
  \<^verbatim>\<open>'router'\<close>, or, the stack being exhausted, an error or, when none is pending,
  undefined or another falsy value.
\<close>

theorem done_exactly_once:
  assumes "exactly_once env (stack (h this))"
  shows "\<exists>evs args. events (dispatch env this h req res) = evs @ [Done args] \<and>
    (\<forall>ev \<in> set evs. \<not> is_done ev) \<and> length args \<le> 1 \<and> args \<noteq> [JStr ''route''] \<and>
    map layer_of evs = map Some (take (length evs) (stack (h this))) \<and>
    (if evs = [] then stack (h this) = [] \<and> args = []
     else \<exists>eff a. respond env (last evs) = Some eff \<and> calls eff = [a] \<and>
            args = (if arg0 a = JStr ''route'' then [] else [arg0 a]) \<and>
            (arg0 a = JStr ''route'' \<or> arg0 a = JStr ''router'' \<or>
             length evs = length (stack (h this))))"
proof (cases "stack (h this) = []")
  case True
  then have "events (dispatch env this h req res) = [] @ [Done []]"
    by (simp add: dispatch_def events_emit)
  with True show ?thesis
    by (intro exI [of _ "[]"] exI [of _ "[]"]) simp
next
  case False
  let ?stk = "stack (h this)"
  let ?E = "events (dispatch env this h req res)"
  have d: "dispatch env this h req res = run env ?stk h 0 (req\<lparr>route := Some this\<rparr>) res [[]]"
    using False by (rule dispatch_run)
  obtain evs args where E: "?E = evs @ [Done args]"
    and nd: "\<forall>ev \<in> set evs. \<not> is_done ev"
    and la: "length args \<le> 1" and nr: "args \<noteq> [JStr ''route'']"
    using run_exactly_once [OF assms refl, of h 0 "req\<lparr>route := Some this\<rparr>" res "[]"]
    by (auto simp: d)
  have "\<exists>rest. ?E = Handle_request (?stk ! 0) (req\<lparr>route := Some this\<rparr>) res # rest"
    using False by (simp add: d run_request events_emit)
  with E have ne: "evs \<noteq> []"
    by (cases evs) auto
  define k where "k = length evs - 1"
  have k: "Suc k = length evs"
    using ne by (simp add: k_def)
  have kE: "k < length ?E"
    using E k by simp
  have ek: "evs ! k = last evs"
    using ne by (simp add: k_def last_conv_nth)
  have Ek: "?E ! k = last evs"
    using E k ek by (simp add: nth_append)
  have "\<not> is_done (last evs)"
    using nd ne by simp
  then obtain eff where r: "respond env (?E ! k) = Some eff"
    using not_done_respond [of "last evs" env] Ek by auto
  have tk: "take (Suc k) ?E = evs" and dk: "drop (Suc k) ?E = [Done args]"
    using E k by simp_all
  have s: "k < length ?stk"
    "map layer_of evs = map Some (take (Suc k) ?stk)"
    "[Done args] = events (run env ?stk h (Suc k) (new_req eff) (new_res eff) (calls eff))"
    using dispatch_suffix [OF exactly_once_at_most_once [OF assms] kE r] tk dk by simp_all
  have "map layer_of evs ! k = map Some (take (Suc k) ?stk) ! k"
    using s(2) by simp
  then have lk: "layer_of (?E ! k) = Some (?stk ! k)"
    using k s(1) Ek ek by simp
  obtain a where a: "calls eff = [a]"
    using exactly_once_calls [OF assms s(1) lk r] by blast
  have fin: "args = (if arg0 a = JStr ''route'' then [] else [arg0 a]) \<and>
    (arg0 a = JStr ''route'' \<or> arg0 a = JStr ''router'' \<or> length ?stk \<le> Suc k)"
    using s(3) a by (intro run_finished [of env ?stk h "Suc k" "new_req eff" "new_res eff"]) simp
  have "respond env (last evs) = Some eff \<and> calls eff = [a] \<and>
      args = (if arg0 a = JStr ''route'' then [] else [arg0 a]) \<and>
      (arg0 a = JStr ''route'' \<or> arg0 a = JStr ''router'' \<or> length evs = length ?stk)"
    using r Ek a fin k s(1) by auto
  then have "\<exists>eff a. respond env (last evs) = Some eff \<and> calls eff = [a] \<and>
      args = (if arg0 a = JStr ''route'' then [] else [arg0 a]) \<and>
      (arg0 a = JStr ''route'' \<or> arg0 a = JStr ''router'' \<or> length evs = length ?stk)"
    by blast
  with E nd la nr s(2) k ne show ?thesis
    by (intro exI [of _ evs] exI [of _ args]) simp
qed

theorem done_exactly_once_witness:
  "exactly_once demo_env (stack (registered [JFun 11 3, JFun 4 3, JFun 12 3] 0)) \<and>
   events (dispatch demo_env 0 (registered [JFun 11 3, JFun 4 3, JFun 12 3]) req0 ()) =
     [Handle_request (Layer ''/'' [] (JFun 11 3)) (req0\<lparr>route := Some 0\<rparr>) (),
      Handle_request (Layer ''/'' [] (JFun 4 3)) (req0\<lparr>route := Some 0\<rparr>) ()] @
     [Done [JStr ''router'']] \<and>
   (\<exists>evs args.
      events (dispatch demo_env 0 (registered [JFun 11 3, JFun 4 3, JFun 12 3]) req0 ()) =
        evs @ [Done args] \<and>
      (\<forall>ev \<in> set evs. \<not> is_done ev) \<and> length args \<le> 1 \<and> args \<noteq> [JStr ''route''] \<and>
      map layer_of evs =
        map Some (take (length evs) (stack (registered [JFun 11 3, JFun 4 3, JFun 12 3] 0))) \<and>
      (if evs = [] then stack (registered [JFun 11 3, JFun 4 3, JFun 12 3] 0) = [] \<and> args = []
       else \<exists>eff a. respond demo_env (last evs) = Some eff \<and> calls eff = [a] \<and>
              args = (if arg0 a = JStr ''route'' then [] else [arg0 a]) \<and>
              (arg0 a = JStr ''route'' \<or> arg0 a = JStr ''router'' \<or>
               length evs = length (stack (registered [JFun 11 3, JFun 4 3, JFun 12 3] 0)))))"
proof -
  have once: "exactly_once demo_env (stack (registered [JFun 11 3, JFun 4 3, JFun 12 3] 0))"
    by (simp add: exactly_once_def stack_registered is_function_def demo_env_simps
        layer_handle_Layer)
  have ev: "events (dispatch demo_env 0 (registered [JFun 11 3, JFun 4 3, JFun 12 3]) req0 ()) =
     [Handle_request (Layer ''/'' [] (JFun 11 3)) (req0\<lparr>route := Some 0\<rparr>) (),
      Handle_request (Layer ''/'' [] (JFun 4 3)) (req0\<lparr>route := Some 0\<rparr>) ()] @
     [Done [JStr ''router'']]"
    by (simp add: demo_eval)
  have "\<exists>evs args.
      events (dispatch demo_env 0 (registered [JFun 11 3, JFun 4 3, JFun 12 3]) req0 ()) =
        evs @ [Done args] \<and>
      (\<forall>ev \<in> set evs. \<not> is_done ev) \<and> length args \<le> 1 \<and> args \<noteq> [JStr ''route''] \<and>
      map layer_of evs =
        map Some (take (length evs) (stack (registered [JFun 11 3, JFun 4 3, JFun 12 3] 0))) \<and>
      (if evs = [] then stack (registered [JFun 11 3, JFun 4 3, JFun 12 3] 0) = [] \<and> args = []
       else \<exists>eff a. respond demo_env (last evs) = Some eff \<and> calls eff = [a] \<and>
              args = (if arg0 a = JStr ''route'' then [] else [arg0 a]) \<and>
              (arg0 a = JStr ''route'' \<or> arg0 a = JStr ''router'' \<or>
               length evs = length (stack (registered [JFun 11 3, JFun 4 3, JFun 12 3] 0))))"
    using once by (rule done_exactly_once)
  with once ev show ?thesis
    by (intro conjI)
qed

text \<open>
  Claim C6 as stated holds for every dispatch. A handler that answers the request
  and does not call its continuation leaves \<^verbatim>\<open>done\<close> uncalled, and one that calls
  \<^verbatim>\<open>next()\<close> twice has \<^verbatim>\<open>done\<close> called twice.
\<close>

theorem done_never_called_counterexample:
  "events (dispatch demo_env 0 (registered [JFun 11 3, JFun 5 3]) req0 ()) =
     [Handle_request (Layer ''/'' [] (JFun 11 3)) (req0\<lparr>route := Some 0\<rparr>) (),
      Handle_request (Layer ''/'' [] (JFun 5 3)) (req0\<lparr>route := Some 0\<rparr>) ()] \<and>
   filter is_done (events (dispatch demo_env 0 (registered [JFun 11 3, JFun 5 3]) req0 ())) = [] \<and>
   filter is_done (events (dispatch demo_env 0 (registered [JFun 2 3]) req0 ())) =
     [Done [JUndefined], Done [JUndefined]]"
  by (simp add: demo_eval)

text \<open>
  Claim C9, as the code has it. On a route whose stack is not empty, the first
  call of a dispatch enters the first layer with the request whose property
  \<^verbatim>\<open>route\<close> is the route dispatched on, and with the response as given. From there
  on the dispatch changes neither: every layer is entered with the request and
  the response as the layer before it left them, and at the end they are as the
  last layer left them; so when no layer changes them, they are the request with
  its route and the response as given. On a route whose stack is empty the
  request, the response and the store are unchanged.
\<close>

theorem dispatch_attaches_route:
  "(stack (h this) \<noteq> [] \<longrightarrow>
      (\<exists>rest. events (dispatch env this h req res) =
         Handle_request (stack (h this) ! 0) (req\<lparr>route := Some this\<rparr>) res # rest) \<and>
      thread env (events (dispatch env this h req res)) (req\<lparr>route := Some this\<rparr>, res) =
        Some (final_req (dispatch env this h req res), final_res (dispatch env this h req res)) \<and>
      (leaves_request env (stack (h this)) \<longrightarrow>
         final_req (dispatch env this h req res) = req\<lparr>route := Some this\<rparr> \<and>
         final_res (dispatch env this h req res) = res)) \<and>
   (stack (h this) = [] \<longrightarrow>
      dispatch env this h req res =
        \<lparr>events = [Done []], final_req = req, final_res = res, final_routes = h\<rparr>)"
proof (intro conjI impI)
  assume ne: "stack (h this) \<noteq> []"
  then show "\<exists>rest. events (dispatch env this h req res) =
      Handle_request (stack (h this) ! 0) (req\<lparr>route := Some this\<rparr>) res # rest"
    by (simp add: dispatch_run run_request events_emit)
  show "thread env (events (dispatch env this h req res)) (req\<lparr>route := Some this\<rparr>, res) =
      Some (final_req (dispatch env this h req res), final_res (dispatch env this h req res))"
    using ne thread_run [of env "stack (h this)" h 0 "req\<lparr>route := Some this\<rparr>" res "[[]]"]
    by (simp add: dispatch_run)
  assume "leaves_request env (stack (h this))"
  then show "final_req (dispatch env this h req res) = req\<lparr>route := Some this\<rparr>"
    and "final_res (dispatch env this h req res) = res"
    using ne run_frame [of env "stack (h this)" h 0 "req\<lparr>route := Some this\<rparr>" res "[[]]"]
    by (simp_all add: dispatch_run)
next
  assume "stack (h this) = []"
  then show "dispatch env this h req res =
      \<lparr>events = [Done []], final_req = req, final_res = res, final_routes = h\<rparr>"
    by (simp add: dispatch_def emit_def)
qed

theorem dispatch_attaches_route_witness:
  "stack (registered [JFun 11 3, JFun 12 3] 0) \<noteq> [] \<and>
   events (dispatch forgetful_env 0 (registered [JFun 11 3, JFun 12 3]) req0 ()) =
     [Handle_request (Layer ''/'' [] (JFun 11 3)) (req0\<lparr>route := Some 0\<rparr>) (),
      Handle_request (Layer ''/'' [] (JFun 12 3)) (req0\<lparr>route := None\<rparr>) (),
      Done [JUndefined]] \<and>
   thread forgetful_env (events (dispatch forgetful_env 0 (registered [JFun 11 3, JFun 12 3]) req0 ()))
     (req0\<lparr>route := Some 0\<rparr>, ()) =
     Some (final_req (dispatch forgetful_env 0 (registered [JFun 11 3, JFun 12 3]) req0 ()),
       final_res (dispatch forgetful_env 0 (registered [JFun 11 3, JFun 12 3]) req0 ())) \<and>
   leaves_request demo_env (stack (registered [JFun 11 3, JFun 12 3] 0)) \<and>
   final_req (dispatch demo_env 0 (registered [JFun 11 3, JFun 12 3]) req0 ()) =
     req0\<lparr>route := Some 0\<rparr> \<and>
   final_res (dispatch demo_env 0 (registered [JFun 11 3, JFun 12 3]) req0 ()) = () \<and>
   stack (no_routes 0) = [] \<and>
   dispatch demo_env 0 no_routes req0 () =
     \<lparr>events = [Done []], final_req = req0, final_res = (), final_routes = no_routes\<rparr>"
proof -
  let ?R = "registered [JFun 11 3, JFun 12 3]"
  have ne: "stack (?R 0) \<noteq> []"
    by (simp add: stack_registered is_function_def)
  have ev: "events (dispatch forgetful_env 0 ?R req0 ()) =
     [Handle_request (Layer ''/'' [] (JFun 11 3)) (req0\<lparr>route := Some 0\<rparr>) (),
      Handle_request (Layer ''/'' [] (JFun 12 3)) (req0\<lparr>route := None\<rparr>) (),
      Done [JUndefined]]"
    by (simp add: dispatch_def Let_def stack_registered is_function_def run_steps events_emit
        sentinel_def forgetful_env_def)
  have lv: "leaves_request demo_env (stack (?R 0))"
    by (simp add: leaves_request_def stack_registered is_function_def demo_env_simps)
  have em: "stack (no_routes 0) = []"
    by (simp add: no_routes_def Route_def)
  have 1: "thread forgetful_env (events (dispatch forgetful_env 0 ?R req0 ()))
     (req0\<lparr>route := Some 0\<rparr>, ()) =
     Some (final_req (dispatch forgetful_env 0 ?R req0 ()),
       final_res (dispatch forgetful_env 0 ?R req0 ()))"
    using ne dispatch_attaches_route [of ?R 0 forgetful_env req0 "()"] by blast
  have 2: "final_req (dispatch demo_env 0 ?R req0 ()) = req0\<lparr>route := Some 0\<rparr> \<and>
      final_res (dispatch demo_env 0 ?R req0 ()) = ()"
    using ne lv dispatch_attaches_route [of ?R 0 demo_env req0 "()"] by blast
  have 3: "dispatch demo_env 0 no_routes req0 () =
     \<lparr>events = [Done []], final_req = req0, final_res = (), final_routes = no_routes\<rparr>"
    using em dispatch_attaches_route [of no_routes 0 demo_env req0 "()"] by blast
  from ne ev 1 lv 2 em 3 show ?thesis
    by (intro conjI) simp_all
qed

text \<open>
  Claim C9 as stated holds for every call of \<^verbatim>\<open>dispatch\<close>. On a route whose stack is
  empty the return at line 58 comes before the assignment at line 61: the request
  has no route afterwards.
\<close>

theorem empty_route_not_attached_counterexample:
  "stack (no_routes 0) = [] \<and>
   route req0 = None \<and>
   events (dispatch demo_env 0 no_routes req0 ()) = [Done []] \<and>
   route (final_req (dispatch demo_env 0 no_routes req0 ())) = None"
  by (simp add: dispatch_def emit_def no_routes_def Route_def req0_def)

end
